theory Spec2Isabelle
  imports Main
begin

section \<open>Connection configuration\<close>

text \<open>
  Modelled from the spec: the connection configuration
  (\<^verbatim>\<open>sqlit.domains.connections.domain.config.ConnectionConfig\<close>) is imported by
  \<^verbatim>\<open>connection_flow.py\<close> but is not part of the sources at hand. The spec's data model
  gives it a unique name, an engine type, an optional endpoint (host, port, username,
  password) and an optional tunnel (SSH host, port, username, password). A secret that is
  not set is Python's \<^verbatim>\<open>None\<close>; the flow tests it with \<^verbatim>\<open>is None\<close>, so an empty string
  counts as a secret that is present.
\<close>

record endpoint_config =
  host :: string
  port :: string
  username :: string
  password :: "string option"

record tunnel_config =
  ssh_host :: string
  ssh_port :: string
  ssh_username :: string
  ssh_password :: "string option"

record connection_config =
  name :: string
  db_type :: string
  tcp_endpoint :: "endpoint_config option"
  tunnel :: "tunnel_config option"

text \<open>
  Modelled from the spec: the derivation operations \<^verbatim>\<open>with_tunnel(password=...)\<close> and
  \<^verbatim>\<open>with_endpoint(password=...)\<close> "return a new configuration with one field replaced,
  leaving the original untouched". The flow calls each only on a configuration that has the
  part in question; on a configuration without it the model leaves the part absent.
\<close>

definition with_tunnel :: "connection_config \<Rightarrow> string \<Rightarrow> connection_config" where
  "with_tunnel config pw =
     config\<lparr>tunnel := map_option (\<lambda>t. t\<lparr>ssh_password := Some pw\<rparr>) (tunnel config)\<rparr>"

definition with_endpoint :: "connection_config \<Rightarrow> string \<Rightarrow> connection_config" where
  "with_endpoint config pw =
     config\<lparr>tcp_endpoint := map_option (\<lambda>e. e\<lparr>password := Some pw\<rparr>) (tcp_endpoint config)\<rparr>"

text \<open>
  Modelled from the spec: \<^verbatim>\<open>needs_ssh_password\<close> and \<^verbatim>\<open>needs_db_password\<close>
  (\<^verbatim>\<open>sqlit.domains.connections.domain.passwords\<close>, not part of the sources at hand). The
  spec's wording is "the tunnel requires a password and none is available" and "the database
  password is required and missing": a configured tunnel, respectively endpoint, whose
  password is not set.
\<close>

definition needs_ssh_password :: "connection_config \<Rightarrow> bool" where
  "needs_ssh_password config =
     (case tunnel config of None \<Rightarrow> False | Some t \<Rightarrow> ssh_password t = None)"

definition needs_db_password :: "connection_config \<Rightarrow> bool" where
  "needs_db_password config =
     (case tcp_endpoint config of None \<Rightarrow> False | Some e \<Rightarrow> password e = None)"


section \<open>Collaborators of the connection flow\<close>

text \<open>
  The credential store (\<^verbatim>\<open>services.credentials_service\<close>): two lookups keyed by the
  connection name, each returning a secret or nothing.
\<close>

record credentials_service =
  get_password :: "string \<Rightarrow> string option"
  get_ssh_password :: "string \<Rightarrow> string option"

record app_services =
  credentials_service :: credentials_service

text \<open>
  The prompter (\<^verbatim>\<open>ConnectionPrompter\<close>). A prompt takes the configuration and a callback
  \<^verbatim>\<open>on_done\<close>, which the prompter invokes at most once, with a secret or with
  \<^verbatim>\<open>None\<close> (cancellation). What a prompter does with the callback is its behaviour: it
  never invokes it, invokes it before the prompt call returns, or invokes it after
  \<^verbatim>\<open>start\<close> has returned.
\<close>

datatype reply = Never | Now "string option" | Later "string option"

record connection_prompter =
  prompt_ssh_password :: "connection_config \<Rightarrow> reply"
  prompt_db_password :: "connection_config \<Rightarrow> reply"

text \<open>
  \<^verbatim>\<open>ConnectionFlow\<close>. The connection manager is an optional collaborator with one
  operation, \<^verbatim>\<open>populate_credentials(config)\<close>, which mutates the configuration it is
  given; the model takes it as the function from the configuration before the call to the
  configuration after it.
\<close>

record connection_flow =
  services :: app_services
  connection_manager :: "(connection_config \<Rightarrow> connection_config) option"
  prompter :: "connection_prompter option"


section \<open>The connection flow\<close>

text \<open>
  \<^verbatim>\<open>populate_credentials_if_missing\<close> mutates the configuration in place; the model
  returns the configuration as it is after the call.
\<close>

definition fill_db_password :: "credentials_service \<Rightarrow> connection_config \<Rightarrow> connection_config" where
  "fill_db_password service config =
     (case tcp_endpoint config of
        None \<Rightarrow> config
      | Some e \<Rightarrow>
          (if password e = None then
             (case get_password service (name config) of
                None \<Rightarrow> config
              | Some pw \<Rightarrow> config\<lparr>tcp_endpoint := Some (e\<lparr>password := Some pw\<rparr>)\<rparr>)
           else config))"

definition fill_ssh_password :: "credentials_service \<Rightarrow> connection_config \<Rightarrow> connection_config" where
  "fill_ssh_password service config =
     (case tunnel config of
        None \<Rightarrow> config
      | Some t \<Rightarrow>
          (if ssh_password t = None then
             (case get_ssh_password service (name config) of
                None \<Rightarrow> config
              | Some pw \<Rightarrow> config\<lparr>tunnel := Some (t\<lparr>ssh_password := Some pw\<rparr>)\<rparr>)
           else config))"

definition credentials_complete :: "connection_config \<Rightarrow> bool" where
  "credentials_complete config =
     (case tcp_endpoint config of
        None \<Rightarrow> False
      | Some e \<Rightarrow>
          (if password e = None then False
           else (case tunnel config of None \<Rightarrow> True | Some t \<Rightarrow> \<not> ssh_password t = None)))"

definition populate_credentials_if_missing ::
  "connection_flow \<Rightarrow> connection_config \<Rightarrow> connection_config" where
  "populate_credentials_if_missing flow config =
     (case connection_manager flow of
        Some populate_credentials \<Rightarrow> populate_credentials config
      | None \<Rightarrow>
          (if credentials_complete config then config
           else fill_ssh_password (credentials_service (services flow))
                  (fill_db_password (credentials_service (services flow)) config)))"

text \<open>
  What a call of \<^verbatim>\<open>start\<close> does to its collaborators, in order: the prompts it requests
  and the calls of \<^verbatim>\<open>on_ready\<close>. The first list holds what happens before \<^verbatim>\<open>start\<close>
  returns, the second what happens afterwards, inside a callback the prompter invokes later.
\<close>

datatype event =
  PromptSsh connection_config
| PromptDb connection_config
| OnReady connection_config

type_synonym trace = "event list \<times> event list"

definition deliver :: "reply \<Rightarrow> event \<Rightarrow> (string option \<Rightarrow> trace) \<Rightarrow> trace" where
  "deliver r request on_done =
     (case r of
        Never \<Rightarrow> ([request], [])
      | Now pw \<Rightarrow> (request # fst (on_done pw), snd (on_done pw))
      | Later pw \<Rightarrow> ([request], fst (on_done pw) @ snd (on_done pw)))"

definition on_db_password :: "connection_config \<Rightarrow> string option \<Rightarrow> trace" where
  "on_db_password config pw =
     (case pw of
        None \<Rightarrow> ([], [])
      | Some p \<Rightarrow> ([OnReady (with_endpoint config p)], []))"

definition with_db_password :: "connection_flow \<Rightarrow> connection_config \<Rightarrow> trace" where
  "with_db_password flow config =
     (if needs_db_password config then
        (case prompter flow of
           None \<Rightarrow> ([], [])
         | Some pr \<Rightarrow> deliver (prompt_db_password pr config) (PromptDb config) (on_db_password config))
      else ([OnReady config], []))"

definition on_ssh_password :: "connection_flow \<Rightarrow> connection_config \<Rightarrow> string option \<Rightarrow> trace" where
  "on_ssh_password flow config pw =
     (case pw of
        None \<Rightarrow> ([], [])
      | Some p \<Rightarrow> with_db_password flow (with_tunnel config p))"

definition start_populated :: "connection_flow \<Rightarrow> connection_config \<Rightarrow> trace" where
  "start_populated flow config =
     (if needs_ssh_password config then
        (case prompter flow of
           None \<Rightarrow> ([], [])
         | Some pr \<Rightarrow>
             deliver (prompt_ssh_password pr config) (PromptSsh config) (on_ssh_password flow config))
      else with_db_password flow config)"

definition start :: "connection_flow \<Rightarrow> connection_config \<Rightarrow> trace" where
  "start flow config = start_populated flow (populate_credentials_if_missing flow config)"

text \<open>Helpers for reading a trace: every event in order, the answer a reply carries, and the
  configurations handed to \<^verbatim>\<open>on_ready\<close>.\<close>

definition events :: "trace \<Rightarrow> event list" where
  "events tr = fst tr @ snd tr"

fun answer :: "reply \<Rightarrow> string option" where
  "answer Never = None"
| "answer (Now pw) = pw"
| "answer (Later pw) = pw"

fun ready_configs :: "event list \<Rightarrow> connection_config list" where
  "ready_configs [] = []"
| "ready_configs (OnReady c # es) = c # ready_configs es"
| "ready_configs (_ # es) = ready_configs es"

fun is_ssh_prompt :: "event \<Rightarrow> bool" where
  "is_ssh_prompt (PromptSsh _) = True"
| "is_ssh_prompt _ = False"

fun is_db_prompt :: "event \<Rightarrow> bool" where
  "is_db_prompt (PromptDb _) = True"
| "is_db_prompt _ = False"


section \<open>Schema service: the session and its adapter\<close>

record capabilities =
  supports_indexes :: bool
  supports_triggers :: bool
  supports_sequences :: bool
  supports_stored_procedures :: bool
  supports_multiple_databases :: bool

text \<open>
  Schema descriptors are opaque to the service but for the attributes it reads:
  \<^verbatim>\<open>item.name\<close> and \<^verbatim>\<open>item.table_name\<close> of an index or trigger, \<^verbatim>\<open>item.name\<close> of a
  sequence. A record field is a constant of the theory, so each descriptor's attributes
  carry its kind as a prefix.
\<close>

record index_info =
  index_name :: string
  index_table_name :: string

record trigger_info =
  trigger_name :: string
  trigger_table_name :: string

record sequence_info =
  sequence_name :: string

datatype error = AdapterError string | IllTypedCacheEntry

text \<open>
  An inspector operation runs against the live connection \<open>'c\<close>, which it may change, and
  either raises or returns its rows. \<^verbatim>\<open>get_tables\<close> and \<^verbatim>\<open>get_views\<close> belong to every
  inspector. The optional extension interfaces (\<^verbatim>\<open>IndexInspector\<close>,
  \<^verbatim>\<open>TriggerInspector\<close>, \<^verbatim>\<open>SequenceInspector\<close>, \<^verbatim>\<open>ProcedureInspector\<close>) are tested with
  \<^verbatim>\<open>isinstance\<close>: an inspector that does not implement one has \<open>None\<close> for its operation.
\<close>

type_synonym ('c, 'r) inspector_call = "'c \<Rightarrow> string option \<Rightarrow> (error + 'r) \<times> 'c"

record 'c schema_inspector =
  get_tables :: "('c, (string \<times> string) list) inspector_call"
  get_views :: "('c, (string \<times> string) list) inspector_call"
  get_indexes :: "('c, index_info list) inspector_call option"
  get_triggers :: "('c, trigger_info list) inspector_call option"
  get_sequences :: "('c, sequence_info list) inspector_call option"
  get_procedures :: "('c, string list) inspector_call option"

record 'c provider =
  schema_inspector :: "'c schema_inspector"
  capabilities :: capabilities

text \<open>
  The session's executor is a single worker; \<^verbatim>\<open>submit(fn, *args).result()\<close> hands it one
  unit of work and waits for the outcome. The model keeps the units submitted so far, in
  order, each with the inspector operation and the database argument it was given.
\<close>

datatype inspector_op = GetTables | GetViews | GetIndexes | GetTriggers | GetSequences | GetProcedures

datatype work = Work inspector_op "string option"

record 'c connection_session =
  provider :: "'c provider"
  connection :: 'c
  executor :: "work list"

text \<open>
  The object cache, \<^verbatim>\<open>dict[str, dict[str, Any]]\<close>. The values the service stores are the
  (schema, name) rows of tables and views and the names of procedures.
\<close>

datatype cached_data = Rows "(string \<times> string) list" | Names "string list"

type_synonym object_cache = "string \<rightharpoonup> (string \<rightharpoonup> cached_data)"

record 'c explorer_schema_service =
  session :: "'c connection_session"
  object_cache :: object_cache
  db_arg_resolver :: "(string option \<Rightarrow> string option) option"


section \<open>Schema service: listing folder items\<close>

definition resolve_db_arg :: "'c explorer_schema_service \<Rightarrow> string option \<Rightarrow> string option" where
  "resolve_db_arg svc database =
     (case db_arg_resolver svc of
        Some resolver \<Rightarrow> resolver database
      | None \<Rightarrow> database)"

text \<open>\<^verbatim>\<open>_run\<close>: the unit of work is recorded by the executor and run on the connection; an
  exception of the operation is the caller's.\<close>

definition run ::
  "'c explorer_schema_service \<Rightarrow> inspector_op \<Rightarrow> ('c, 'r) inspector_call \<Rightarrow> string option
     \<Rightarrow> (error + 'r) \<times> 'c explorer_schema_service" where
  "run svc opn fn db_arg =
     (case fn (connection (session svc)) db_arg of
        (res, conn) \<Rightarrow>
          (res, svc\<lparr>session := (session svc)
                   \<lparr>connection := conn,
                    executor := executor (session svc) @ [Work opn db_arg]\<rparr>\<rparr>))"

text \<open>\<^verbatim>\<open>database or "__default__"\<close>: Python's \<^verbatim>\<open>or\<close> takes the right operand when the left
  one is \<^verbatim>\<open>None\<close> or the empty string.\<close>

definition cache_key_of :: "string option \<Rightarrow> string" where
  "cache_key_of database =
     (case database of
        None \<Rightarrow> ''__default__''
      | Some d \<Rightarrow> (if d = [] then ''__default__'' else d))"

definition cache_get :: "object_cache \<Rightarrow> string \<Rightarrow> string \<Rightarrow> cached_data option" where
  "cache_get obj_cache cache_key key =
     (case obj_cache cache_key of
        None \<Rightarrow> None
      | Some part \<Rightarrow> part key)"

definition cache_put :: "object_cache \<Rightarrow> string \<Rightarrow> string \<Rightarrow> cached_data \<Rightarrow> object_cache" where
  "cache_put obj_cache cache_key key data =
     (case obj_cache cache_key of
        None \<Rightarrow> obj_cache(cache_key \<mapsto> Map.empty(key \<mapsto> data))
      | Some part \<Rightarrow> obj_cache(cache_key \<mapsto> part(key \<mapsto> data)))"

text \<open>The local function \<^verbatim>\<open>cached(key, loader)\<close> of \<^verbatim>\<open>list_folder_items\<close>. A loader that
  raises leaves the cache as it was.\<close>

definition cached ::
  "'c explorer_schema_service \<Rightarrow> string \<Rightarrow> string
     \<Rightarrow> ('c explorer_schema_service \<Rightarrow> (error + cached_data) \<times> 'c explorer_schema_service)
     \<Rightarrow> (error + cached_data) \<times> 'c explorer_schema_service" where
  "cached svc cache_key key loader =
     (case cache_get (object_cache svc) cache_key key of
        Some data \<Rightarrow> (Inr data, svc)
      | None \<Rightarrow>
          (case loader svc of
             (Inl e, svc') \<Rightarrow> (Inl e, svc')
           | (Inr data, svc') \<Rightarrow>
               (Inr data, svc'\<lparr>object_cache := cache_put (object_cache svc') cache_key key data\<rparr>)))"

definition load ::
  "('r \<Rightarrow> cached_data) \<Rightarrow> (error + 'r) \<times> 's \<Rightarrow> (error + cached_data) \<times> 's" where
  "load wrap r = (case r of (Inl e, s) \<Rightarrow> (Inl e, s) | (Inr rows, s) \<Rightarrow> (Inr (wrap rows), s))"

type_synonym items = "(string \<times> string \<times> string) list"

text \<open>The list comprehensions over what the cache or the adapter returned. An entry of the
  cache that does not have the shape its key's loader stores is outside the annotated types;
  the model stops there with an error.\<close>

definition pair_items :: "string \<Rightarrow> cached_data \<Rightarrow> error + items" where
  "pair_items kind raw_data =
     (case raw_data of
        Rows rows \<Rightarrow> Inr (map (\<lambda>(schema, nm). (kind, schema, nm)) rows)
      | Names _ \<Rightarrow> Inl IllTypedCacheEntry)"

definition procedure_items :: "cached_data \<Rightarrow> error + items" where
  "procedure_items raw_data =
     (case raw_data of
        Names names \<Rightarrow> Inr (map (\<lambda>nm. (''procedure'', [], nm)) names)
      | Rows _ \<Rightarrow> Inl IllTypedCacheEntry)"

definition returning ::
  "(error + 'r) \<times> 's \<Rightarrow> ('r \<Rightarrow> error + items) \<Rightarrow> (error + items) \<times> 's" where
  "returning r f = (case r of (Inl e, s) \<Rightarrow> (Inl e, s) | (Inr x, s) \<Rightarrow> (f x, s))"

definition list_folder_items ::
  "'c explorer_schema_service \<Rightarrow> string \<Rightarrow> string option
     \<Rightarrow> (error + items) \<times> 'c explorer_schema_service" where
  "list_folder_items svc folder_type database =
     (let inspector = schema_inspector (provider (session svc));
          caps = capabilities (provider (session svc));
          db_arg = resolve_db_arg svc database;
          cache_key = cache_key_of database
      in
        if folder_type = ''tables'' then
          returning
            (cached svc cache_key ''tables''
               (\<lambda>s. load Rows (run s GetTables (get_tables inspector) db_arg)))
            (pair_items ''table'')
        else if folder_type = ''views'' then
          returning
            (cached svc cache_key ''views''
               (\<lambda>s. load Rows (run s GetViews (get_views inspector) db_arg)))
            (pair_items ''view'')
        else if folder_type = ''indexes'' then
          (case (supports_indexes caps, get_indexes inspector) of
             (True, Some fn) \<Rightarrow>
               returning (run svc GetIndexes fn db_arg)
                 (\<lambda>found. Inr (map (\<lambda>item. (''index'', index_name item, index_table_name item)) found))
           | _ \<Rightarrow> (Inr [], svc))
        else if folder_type = ''triggers'' then
          (case (supports_triggers caps, get_triggers inspector) of
             (True, Some fn) \<Rightarrow>
               returning (run svc GetTriggers fn db_arg)
                 (\<lambda>found. Inr (map (\<lambda>item. (''trigger'', trigger_name item, trigger_table_name item)) found))
           | _ \<Rightarrow> (Inr [], svc))
        else if folder_type = ''sequences'' then
          (case (supports_sequences caps, get_sequences inspector) of
             (True, Some fn) \<Rightarrow>
               returning (run svc GetSequences fn db_arg)
                 (\<lambda>found. Inr (map (\<lambda>item. (''sequence'', sequence_name item, [])) found))
           | _ \<Rightarrow> (Inr [], svc))
        else if folder_type = ''procedures'' then
          (case (supports_stored_procedures caps, get_procedures inspector) of
             (True, Some fn) \<Rightarrow>
               returning
                 (cached svc cache_key ''procedures''
                    (\<lambda>s. load Names (run s GetProcedures fn db_arg)))
                 procedure_items
           | _ \<Rightarrow> (Inr [], svc))
        else (Inr [], svc))"


section \<open>Example collaborators and configurations\<close>

text \<open>Concrete configurations, credential stores and prompters on which the theorems below
  are instantiated.\<close>

definition example_endpoint :: endpoint_config where
  "example_endpoint = \<lparr>host = ''db.internal'', port = ''5432'', username = ''app'', password = None\<rparr>"

definition example_tunnel :: tunnel_config where
  "example_tunnel =
     \<lparr>ssh_host = ''bastion'', ssh_port = ''22'', ssh_username = ''ops'', ssh_password = None\<rparr>"

definition config_missing_both :: connection_config where
  "config_missing_both =
     \<lparr>name = ''prod'', db_type = ''postgresql'',
      tcp_endpoint = Some example_endpoint, tunnel = Some example_tunnel\<rparr>"

definition config_missing_db :: connection_config where
  "config_missing_db =
     \<lparr>name = ''prod'', db_type = ''postgresql'',
      tcp_endpoint = Some example_endpoint,
      tunnel = Some (example_tunnel\<lparr>ssh_password := Some ''hunter2''\<rparr>)\<rparr>"

definition config_complete :: connection_config where
  "config_complete =
     \<lparr>name = ''prod'', db_type = ''postgresql'',
      tcp_endpoint = Some (example_endpoint\<lparr>password := Some ''pw''\<rparr>),
      tunnel = Some (example_tunnel\<lparr>ssh_password := Some ''hunter2''\<rparr>)\<rparr>"

definition empty_store :: credentials_service where
  "empty_store = \<lparr>get_password = (\<lambda>_. None), get_ssh_password = (\<lambda>_. None)\<rparr>"

definition store_with_ssh :: credentials_service where
  "store_with_ssh =
     \<lparr>get_password = (\<lambda>_. None),
      get_ssh_password = (\<lambda>n. if n = ''prod'' then Some ''stored-ssh'' else None)\<rparr>"

definition store_with_db :: credentials_service where
  "store_with_db =
     \<lparr>get_password = (\<lambda>n. if n = ''prod'' then Some ''stored-db'' else None),
      get_ssh_password = (\<lambda>_. None)\<rparr>"

definition answering_prompter :: connection_prompter where
  "answering_prompter =
     \<lparr>prompt_ssh_password = (\<lambda>_. Later (Some ''ssh-secret'')),
      prompt_db_password = (\<lambda>_. Later (Some ''secret1''))\<rparr>"

definition cancelling_prompter :: connection_prompter where
  "cancelling_prompter =
     \<lparr>prompt_ssh_password = (\<lambda>_. Later None),
      prompt_db_password = (\<lambda>_. Later (Some ''secret1''))\<rparr>"

definition flow_of :: "credentials_service \<Rightarrow> connection_prompter option \<Rightarrow> connection_flow" where
  "flow_of store pr =
     \<lparr>services = \<lparr>credentials_service = store\<rparr>, connection_manager = None, prompter = pr\<rparr>"


section \<open>Vocabulary of the schema-service properties\<close>

text \<open>The capability flag and the optional extension interface that \<^verbatim>\<open>list_folder_items\<close>
  tests for each capability-gated folder kind.\<close>

definition capability_flag :: "capabilities \<Rightarrow> string \<Rightarrow> bool" where
  "capability_flag caps kind =
     (if kind = ''indexes'' then supports_indexes caps
      else if kind = ''triggers'' then supports_triggers caps
      else if kind = ''sequences'' then supports_sequences caps
      else if kind = ''procedures'' then supports_stored_procedures caps
      else False)"

definition implements_extension :: "'c schema_inspector \<Rightarrow> string \<Rightarrow> bool" where
  "implements_extension inspector kind =
     (if kind = ''indexes'' then get_indexes inspector \<noteq> None
      else if kind = ''triggers'' then get_triggers inspector \<noteq> None
      else if kind = ''sequences'' then get_sequences inspector \<noteq> None
      else if kind = ''procedures'' then get_procedures inspector \<noteq> None
      else False)"

text \<open>The folder kinds whose listing goes through the cache, and the inspector operation
  that loads each: tables and views always, procedures where the engine has them.\<close>

definition memoized :: "'c explorer_schema_service \<Rightarrow> string \<Rightarrow> bool" where
  "memoized svc kind =
     (if kind = ''tables'' then True
      else if kind = ''views'' then True
      else if kind = ''procedures'' then
        capability_flag (capabilities (provider (session svc))) kind
        \<and> implements_extension (schema_inspector (provider (session svc))) kind
      else False)"

definition loader_op :: "string \<Rightarrow> inspector_op" where
  "loader_op kind =
     (if kind = ''tables'' then GetTables
      else if kind = ''views'' then GetViews
      else GetProcedures)"


text \<open>A loader, as the proofs below see it: whatever it returns, it hands the executor
  one unit of work and leaves the cache, the provider and the resolver alone.\<close>

definition loads :: "('c explorer_schema_service \<Rightarrow> (error + cached_data) \<times> 'c explorer_schema_service)
    \<Rightarrow> work \<Rightarrow> bool" where
  "loads L w = (\<forall>s. object_cache (snd (L s)) = object_cache s
                  \<and> executor (session (snd (L s))) = executor (session s) @ [w]
                  \<and> provider (session (snd (L s))) = provider (session s)
                  \<and> db_arg_resolver (snd (L s)) = db_arg_resolver s)"

text \<open>What a listing that does not go through the cache does to the service: the cache is
  as it was, and at most one unit of work, carrying the resolved database argument, has
  been handed to the executor.\<close>

definition uncached_effect ::
  "'c explorer_schema_service \<Rightarrow> string option \<Rightarrow> 'c explorer_schema_service \<Rightarrow> bool" where
  "uncached_effect svc database svc' =
     (object_cache svc' = object_cache svc
      \<and> (executor (session svc') = executor (session svc)
         \<or> (\<exists>opn. executor (session svc')
                     = executor (session svc) @ [Work opn (resolve_db_arg svc database)])))"


section \<open>Example session\<close>

text \<open>An adapter whose connection counts the calls made on it; what \<^verbatim>\<open>get_tables\<close>
  returns grows with that count, so that two calls of the adapter never return the same
  rows. The engine declares triggers and implements no trigger interface; it implements
  the index interface and does not declare indexes.\<close>

definition example_inspector :: "nat schema_inspector" where
  "example_inspector =
     \<lparr>get_tables = (\<lambda>c db. (Inr (replicate (Suc c) (''public'', ''users'')), Suc c)),
      get_views = (\<lambda>c db. (Inr [(''public'', ''active_users'')], Suc c)),
      get_indexes =
        Some (\<lambda>c db. (Inr [\<lparr>index_name = ''users_pk'', index_table_name = ''users''\<rparr>], Suc c)),
      get_triggers = None,
      get_sequences = None,
      get_procedures = Some (\<lambda>c db. (Inr [''refresh_stats''], Suc c))\<rparr>"

definition example_capabilities :: capabilities where
  "example_capabilities =
     \<lparr>supports_indexes = False, supports_triggers = True, supports_sequences = False,
      supports_stored_procedures = True, supports_multiple_databases = True\<rparr>"

definition example_service :: "nat explorer_schema_service" where
  "example_service =
     \<lparr>session =
        \<lparr>provider = \<lparr>schema_inspector = example_inspector, capabilities = example_capabilities\<rparr>,
         connection = 0, executor = []\<rparr>,
      object_cache = Map.empty,
      db_arg_resolver = None\<rparr>"

text \<open>The same service for an engine that addresses the current database through the
  live connection: its resolver drops the explicit database.\<close>

definition implicit_db_service :: "nat explorer_schema_service" where
  "implicit_db_service = example_service\<lparr>db_arg_resolver := Some (\<lambda>_. None)\<rparr>"


section \<open>Properties of the connection flow\<close>

lemmas example_defs = example_endpoint_def example_tunnel_def config_missing_both_def
  config_missing_db_def config_complete_def empty_store_def store_with_ssh_def store_with_db_def
  answering_prompter_def cancelling_prompter_def flow_of_def

lemmas flow_defs = start_def start_populated_def with_db_password_def on_ssh_password_def
  on_db_password_def deliver_def events_def populate_credentials_if_missing_def
  credentials_complete_def fill_db_password_def fill_ssh_password_def
  needs_ssh_password_def needs_db_password_def with_tunnel_def with_endpoint_def

lemma populate_complete:
  assumes "tcp_endpoint config = Some e" and "password e = Some pw"
    and "case tunnel config of None \<Rightarrow> True | Some t \<Rightarrow> ssh_password t \<noteq> None"
    and "case connection_manager flow of None \<Rightarrow> True | Some populate \<Rightarrow> populate config = config"
  shows "populate_credentials_if_missing flow config = config"
  using assms
  by (auto simp: populate_credentials_if_missing_def credentials_complete_def split: option.splits)

lemma needs_ssh_with_tunnel: "\<not> needs_ssh_password (with_tunnel c p)"
  by (simp add: needs_ssh_password_def with_tunnel_def split: option.splits)

lemma needs_db_with_endpoint: "\<not> needs_db_password (with_endpoint c p)"
  by (simp add: needs_db_password_def with_endpoint_def split: option.splits)

lemma needs_ssh_with_endpoint: "needs_ssh_password (with_endpoint c p) = needs_ssh_password c"
  by (simp add: needs_ssh_password_def with_endpoint_def)

lemma needs_db_with_tunnel: "needs_db_password (with_tunnel c p) = needs_db_password c"
  by (simp add: needs_db_password_def with_tunnel_def)

text \<open>
  Claim C1. When the endpoint password is present and, where a tunnel is configured, the
  tunnel password is present too, \<^verbatim>\<open>start\<close> calls \<^verbatim>\<open>on_ready\<close> before it returns, exactly
  once, with the configuration it was given, and requests no prompt; whether a prompter is
  registered plays no part. Credential population is the early return of
  \<^verbatim>\<open>populate_credentials_if_missing\<close>; where a connection manager is registered instead,
  its \<^verbatim>\<open>populate_credentials\<close> is taken to keep such a configuration as it is, which is
  the contract the spec gives to population ("no-op if both are already present").
\<close>

theorem start_credentials_present:
  assumes "tcp_endpoint config = Some e" and "password e = Some pw"
    and "case tunnel config of None \<Rightarrow> True | Some t \<Rightarrow> ssh_password t \<noteq> None"
    and "case connection_manager flow of None \<Rightarrow> True | Some populate \<Rightarrow> populate config = config"
  shows "start flow config = ([OnReady config], [])"
proof -
  have p: "populate_credentials_if_missing flow config = config"
    using assms by (rule populate_complete)
  have s: "\<not> needs_ssh_password config"
    using assms(3) by (simp add: needs_ssh_password_def split: option.splits)
  have d: "\<not> needs_db_password config"
    using assms(1,2) by (simp add: needs_db_password_def)
  show ?thesis
    by (simp add: start_def start_populated_def with_db_password_def p s d)
qed

theorem start_credentials_present_witness:
  "tcp_endpoint config_complete = Some (example_endpoint\<lparr>password := Some ''pw''\<rparr>)
   \<and> password (example_endpoint\<lparr>password := Some ''pw''\<rparr>) = Some ''pw''
   \<and> start ((flow_of store_with_db (Some answering_prompter))
               \<lparr>connection_manager := Some (fill_ssh_password store_with_ssh)\<rparr>) config_complete
       = ([OnReady config_complete], [])"
  using start_credentials_present
    [of config_complete "example_endpoint\<lparr>password := Some ''pw''\<rparr>" "''pw''"
        "(flow_of store_with_db (Some answering_prompter))
           \<lparr>connection_manager := Some (fill_ssh_password store_with_ssh)\<rparr>"]
  by (simp add: example_defs fill_ssh_password_def)

text \<open>
  Claim C2, as amended. The claim speaks of a configuration missing both passwords; the
  flow first fills what the credential store holds, and a password found there is not asked
  for. For a configuration that still needs both passwords after credential population,
  with a prompter registered: the first thing \<^verbatim>\<open>start\<close> does is request the SSH password.
  If the SSH callback is never invoked or is invoked with no value, nothing else happens:
  no DB prompt, no \<^verbatim>\<open>on_ready\<close>. If it is invoked with a password, the DB prompt follows,
  for the configuration derived with that password, and no further prompt after it.
\<close>

theorem ssh_prompt_first:
  assumes "prompter flow = Some pr"
    and "populate_credentials_if_missing flow config = c"
    and "needs_ssh_password c" and "needs_db_password c"
  shows "\<exists>rest. events (start flow config) = PromptSsh c # rest
            \<and> (case answer (prompt_ssh_password pr c) of
                  None \<Rightarrow> rest = []
                | Some p \<Rightarrow> \<exists>after. rest = PromptDb (with_tunnel c p) # after
                                \<and> list_all (\<lambda>e. \<not> is_ssh_prompt e \<and> \<not> is_db_prompt e) after)"
  using assms
  by (cases "prompt_ssh_password pr c";
      cases "prompt_db_password pr (with_tunnel c (the (answer (prompt_ssh_password pr c))))")
     (auto simp: start_def start_populated_def deliver_def on_ssh_password_def events_def
       with_db_password_def needs_db_with_tunnel on_db_password_def split: option.splits)

theorem ssh_prompt_first_witness:
  "prompter (flow_of empty_store (Some cancelling_prompter)) = Some cancelling_prompter
   \<and> populate_credentials_if_missing (flow_of empty_store (Some cancelling_prompter))
        config_missing_both = config_missing_both
   \<and> needs_ssh_password config_missing_both \<and> needs_db_password config_missing_both
   \<and> events (start (flow_of empty_store (Some cancelling_prompter)) config_missing_both)
       = [PromptSsh config_missing_both]"
  using ssh_prompt_first
    [of "flow_of empty_store (Some cancelling_prompter)" cancelling_prompter
        config_missing_both config_missing_both]
  by (simp add: example_defs flow_defs)

text \<open>
  The claim as stated fails: the configuration below misses both passwords, a prompter is
  registered, the credential store holds the SSH password of the connection. \<^verbatim>\<open>start\<close>
  requests the DB password and never requests the SSH password.
\<close>

theorem ssh_prompt_first_counterexample:
  "needs_ssh_password config_missing_both \<and> needs_db_password config_missing_both
   \<and> prompter (flow_of store_with_ssh (Some answering_prompter)) = Some answering_prompter
   \<and> list_all (\<lambda>e. \<not> is_ssh_prompt e)
        (events (start (flow_of store_with_ssh (Some answering_prompter)) config_missing_both))
   \<and> list_ex is_db_prompt
        (events (start (flow_of store_with_ssh (Some answering_prompter)) config_missing_both))"
  by (simp add: example_defs flow_defs)

text \<open>
  Claim C3. A configuration that still requires the SSH password or the DB password after
  credential population, and no prompter registered: \<^verbatim>\<open>start\<close> returns, having requested
  nothing and without calling \<^verbatim>\<open>on_ready\<close>, neither before it returns nor later.
\<close>

theorem start_no_prompter_silent:
  assumes "prompter flow = None"
    and "needs_ssh_password (populate_credentials_if_missing flow config)
         \<or> needs_db_password (populate_credentials_if_missing flow config)"
  shows "start flow config = ([], [])"
  using assms by (auto simp: start_def start_populated_def with_db_password_def)

theorem start_no_prompter_silent_witness:
  "prompter (flow_of store_with_ssh None) = None
   \<and> needs_db_password
        (populate_credentials_if_missing (flow_of store_with_ssh None) config_missing_both)
   \<and> start (flow_of store_with_ssh None) config_missing_both = ([], [])"
  using start_no_prompter_silent [of "flow_of store_with_ssh None" config_missing_both]
  by (simp add: example_defs flow_defs)

lemma with_db_password_ready:
  assumes "\<not> needs_ssh_password c"
  shows "length (ready_configs (events (with_db_password flow c))) \<le> 1
    \<and> (\<forall>r \<in> set (ready_configs (events (with_db_password flow c))).
          \<not> needs_ssh_password r \<and> \<not> needs_db_password r)"
  using assms
  by (auto simp: with_db_password_def deliver_def on_db_password_def events_def
      needs_db_with_endpoint needs_ssh_with_endpoint split: option.splits reply.splits)

lemma start_populated_ready:
  "length (ready_configs (events (start_populated flow c))) \<le> 1
    \<and> (\<forall>r \<in> set (ready_configs (events (start_populated flow c))).
          \<not> needs_ssh_password r \<and> \<not> needs_db_password r)"
proof (cases "needs_ssh_password c")
  case False
  then show ?thesis
    using with_db_password_ready [OF False, of flow] by (simp add: start_populated_def)
next
  case True
  have w: "\<And>p. length (ready_configs (events (with_db_password flow (with_tunnel c p)))) \<le> 1
    \<and> (\<forall>r \<in> set (ready_configs (events (with_db_password flow (with_tunnel c p)))).
          \<not> needs_ssh_password r \<and> \<not> needs_db_password r)"
    by (rule with_db_password_ready) (rule needs_ssh_with_tunnel)
  show ?thesis
  proof (cases "prompter flow")
    case None
    with True show ?thesis by (simp add: start_populated_def events_def)
  next
    case (Some pr)
    show ?thesis
    proof (cases "answer (prompt_ssh_password pr c)")
      case None
      then show ?thesis using True Some
        by (cases "prompt_ssh_password pr c")
           (simp_all add: start_populated_def deliver_def on_ssh_password_def events_def)
    next
      case (Some p)
      then show ?thesis using True \<open>prompter flow = Some pr\<close> w [of p]
        by (cases "prompt_ssh_password pr c")
           (simp_all add: start_populated_def deliver_def on_ssh_password_def events_def)
    qed
  qed
qed

text \<open>
  Claim C4. Whatever the credential store, the connection manager and the prompter do (a
  prompter invokes a callback at most once, as its interface says), one call of \<^verbatim>\<open>start\<close>
  calls \<^verbatim>\<open>on_ready\<close> at most once, counting the calls made after \<^verbatim>\<open>start\<close> has
  returned, and every configuration \<^verbatim>\<open>on_ready\<close> receives needs neither the SSH password
  nor the DB password.
\<close>

theorem on_ready_at_most_once:
  "length (ready_configs (events (start flow config))) \<le> 1
    \<and> (\<forall>r \<in> set (ready_configs (events (start flow config))).
          \<not> needs_ssh_password r \<and> \<not> needs_db_password r)"
  unfolding start_def by (rule start_populated_ready)

theorem on_ready_at_most_once_witness:
  "ready_configs (events (start (flow_of empty_store (Some answering_prompter)) config_missing_both))
     = [with_endpoint (with_tunnel config_missing_both ''ssh-secret'') ''secret1'']
   \<and> \<not> needs_ssh_password (with_endpoint (with_tunnel config_missing_both ''ssh-secret'') ''secret1'')
   \<and> \<not> needs_db_password (with_endpoint (with_tunnel config_missing_both ''ssh-secret'') ''secret1'')"
  using on_ready_at_most_once [of "flow_of empty_store (Some answering_prompter)" config_missing_both]
  by (simp add: example_defs flow_defs)

text \<open>
  Claim C5, as amended. The claim speaks of a configuration missing only the DB password;
  a DB password held by the credential store is filled in and not asked for. For a
  configuration that after credential population needs the DB password and not the SSH
  password, with a prompter registered: \<^verbatim>\<open>start\<close> requests the DB password and never the
  SSH password; when the prompt supplies a password, \<^verbatim>\<open>on_ready\<close> is called exactly once,
  with the populated configuration in which the endpoint's password is the supplied one and
  nothing else differs; when the prompt supplies none, \<^verbatim>\<open>on_ready\<close> is not called.
\<close>

theorem db_prompt_only:
  assumes "prompter flow = Some pr"
    and "populate_credentials_if_missing flow config = c"
    and "\<not> needs_ssh_password c" and "needs_db_password c"
  shows "list_all (\<lambda>e. \<not> is_ssh_prompt e) (events (start flow config))
     \<and> (case answer (prompt_db_password pr c) of
           None \<Rightarrow> events (start flow config) = [PromptDb c]
         | Some p \<Rightarrow>
             events (start flow config) = [PromptDb c, OnReady (with_endpoint c p)]
             \<and> (\<exists>e. tcp_endpoint c = Some e
                    \<and> with_endpoint c p = c\<lparr>tcp_endpoint := Some (e\<lparr>password := Some p\<rparr>)\<rparr>))"
  using assms
  by (cases "prompt_db_password pr c")
     (auto simp: start_def start_populated_def deliver_def events_def
       with_db_password_def on_db_password_def needs_db_password_def with_endpoint_def
       split: option.splits)

theorem db_prompt_only_witness:
  "prompter (flow_of empty_store (Some answering_prompter)) = Some answering_prompter
   \<and> populate_credentials_if_missing (flow_of empty_store (Some answering_prompter))
        config_missing_db = config_missing_db
   \<and> \<not> needs_ssh_password config_missing_db \<and> needs_db_password config_missing_db
   \<and> events (start (flow_of empty_store (Some answering_prompter)) config_missing_db)
       = [PromptDb config_missing_db,
          OnReady (config_missing_db
            \<lparr>tcp_endpoint := Some (example_endpoint\<lparr>password := Some ''secret1''\<rparr>)\<rparr>)]"
  using db_prompt_only
    [of "flow_of empty_store (Some answering_prompter)" answering_prompter
        config_missing_db config_missing_db]
  by (simp add: example_defs flow_defs)

text \<open>
  The claim as stated fails: the configuration below misses only the DB password, a
  prompter is registered and would supply \<^verbatim>\<open>secret1\<close>, the credential store holds the DB
  password of the connection. \<^verbatim>\<open>start\<close> requests nothing and calls \<^verbatim>\<open>on_ready\<close> with the
  stored password.
\<close>

theorem db_prompt_only_counterexample:
  "\<not> needs_ssh_password config_missing_db \<and> needs_db_password config_missing_db
   \<and> prompter (flow_of store_with_db (Some answering_prompter)) = Some answering_prompter
   \<and> answer (prompt_db_password answering_prompter config_missing_db) = Some ''secret1''
   \<and> start (flow_of store_with_db (Some answering_prompter)) config_missing_db
       = ([OnReady (with_endpoint config_missing_db ''stored-db'')], [])"
  by (simp add: example_defs flow_defs)


section \<open>Properties of the schema service\<close>

lemmas schema_example_defs = example_inspector_def example_capabilities_def example_service_def
  implicit_db_service_def

lemmas schema_defs = list_folder_items_def cached_def run_def load_def returning_def
  resolve_db_arg_def cache_key_of_def cache_get_def cache_put_def pair_items_def
  procedure_items_def memoized_def loader_op_def

subsection \<open>The cache\<close>

lemma cache_get_put_same: "cache_get (cache_put oc ck key data) ck key = Some data"
  by (simp add: cache_get_def cache_put_def split: option.splits)

lemma cache_get_put_other:
  "ck' \<noteq> ck \<or> key' \<noteq> key \<Longrightarrow> cache_get (cache_put oc ck key data) ck' key' = cache_get oc ck' key'"
  by (auto simp: cache_get_def cache_put_def split: option.splits)

lemma cache_put_other_partition: "ck' \<noteq> ck \<Longrightarrow> cache_put oc ck key data ck' = oc ck'"
  by (simp add: cache_put_def split: option.splits)

subsection \<open>A loader: one unit of work, the cache left alone\<close>

lemma loads_run: "loads (\<lambda>s. load wrap (run s opn fn db_arg)) (Work opn db_arg)"
  by (simp add: loads_def load_def run_def split: prod.splits sum.splits)

lemma cached_hit:
  "cache_get (object_cache svc) ck key = Some data \<Longrightarrow> cached svc ck key L = (Inr data, svc)"
  by (simp add: cached_def)

lemma cached_miss:
  assumes "loads L w" and "cache_get (object_cache svc) ck key = None"
    and "cached svc ck key L = (res, svc')"
  shows "executor (session svc') = executor (session svc) @ [w]"
    and "provider (session svc') = provider (session svc)"
    and "db_arg_resolver svc' = db_arg_resolver svc"
    and "ck' \<noteq> ck \<Longrightarrow> object_cache svc' ck' = object_cache svc ck'"
    and "ck' \<noteq> ck \<or> key' \<noteq> key \<Longrightarrow> cache_get (object_cache svc') ck' key' = cache_get (object_cache svc) ck' key'"
    and "res = Inr data \<Longrightarrow> cache_get (object_cache svc') ck key = Some data"
    and "(\<exists>e. res = Inl e) \<Longrightarrow> object_cache svc' = object_cache svc"
proof -
  obtain r s where L: "L svc = (r, s)" by (cases "L svc")
  from assms(1) have s: "object_cache s = object_cache svc"
    "executor (session s) = executor (session svc) @ [w]"
    "provider (session s) = provider (session svc)"
    "db_arg_resolver s = db_arg_resolver svc"
    unfolding loads_def using L by (metis snd_conv)+
  show "executor (session svc') = executor (session svc) @ [w]"
    "provider (session svc') = provider (session svc)"
    "db_arg_resolver svc' = db_arg_resolver svc"
    "ck' \<noteq> ck \<Longrightarrow> object_cache svc' ck' = object_cache svc ck'"
    "ck' \<noteq> ck \<or> key' \<noteq> key \<Longrightarrow> cache_get (object_cache svc') ck' key' = cache_get (object_cache svc) ck' key'"
    "res = Inr data \<Longrightarrow> cache_get (object_cache svc') ck key = Some data"
    "(\<exists>e. res = Inl e) \<Longrightarrow> object_cache svc' = object_cache svc"
    using assms(2,3) L s
    by (cases r; auto simp: cached_def cache_get_put_same cache_get_put_other cache_put_other_partition)+
qed

lemma memo_first:
  assumes "loads L w" and "cache_get (object_cache svc) ck key = None"
    and "returning (cached svc ck key L) f = (Inr found, svc1)"
  shows "executor (session svc1) = executor (session svc) @ [w]"
    and "provider (session svc1) = provider (session svc)"
    and "db_arg_resolver svc1 = db_arg_resolver svc"
    and "ck' \<noteq> ck \<Longrightarrow> object_cache svc1 ck' = object_cache svc ck'"
    and "ck' \<noteq> ck \<or> key' \<noteq> key \<Longrightarrow> cache_get (object_cache svc1) ck' key' = cache_get (object_cache svc) ck' key'"
    and "\<exists>data. cache_get (object_cache svc1) ck key = Some data \<and> f data = Inr found"
proof -
  obtain r s where c: "cached svc ck key L = (r, s)" by (cases "cached svc ck key L")
  with assms(3) obtain data where r: "r = Inr data" and s: "s = svc1" and f: "f data = Inr found"
    by (cases r) (auto simp: returning_def)
  note m = cached_miss [OF assms(1,2) c [unfolded s]]
  show "executor (session svc1) = executor (session svc) @ [w]" by (rule m(1))
  show "provider (session svc1) = provider (session svc)" by (rule m(2))
  show "db_arg_resolver svc1 = db_arg_resolver svc" by (rule m(3))
  show "ck' \<noteq> ck \<Longrightarrow> object_cache svc1 ck' = object_cache svc ck'" by (rule m(4))
  show "ck' \<noteq> ck \<or> key' \<noteq> key \<Longrightarrow> cache_get (object_cache svc1) ck' key' = cache_get (object_cache svc) ck' key'"
    by (rule m(5))
  show "\<exists>data. cache_get (object_cache svc1) ck key = Some data \<and> f data = Inr found"
    using m(6) [OF r] f by blast
qed

lemma memo_hit:
  "cache_get (object_cache svc) ck key = Some data \<Longrightarrow> returning (cached svc ck key L) f = (f data, svc)"
  by (simp add: cached_hit returning_def)

lemma memo_any:
  assumes "loads L w" and "cache_get (object_cache svc) ck key = None"
    and "returning (cached svc ck key L) f = (res, svc1)"
  shows "executor (session svc1) = executor (session svc) @ [w]"
    and "provider (session svc1) = provider (session svc)"
    and "db_arg_resolver svc1 = db_arg_resolver svc"
    and "ck' \<noteq> ck \<Longrightarrow> object_cache svc1 ck' = object_cache svc ck'"
    and "ck' \<noteq> ck \<or> key' \<noteq> key \<Longrightarrow> cache_get (object_cache svc1) ck' key' = cache_get (object_cache svc) ck' key'"
    and "res = Inr found \<Longrightarrow> \<exists>data. cache_get (object_cache svc1) ck key = Some data \<and> f data = Inr found"
proof -
  obtain r s where c: "cached svc ck key L = (r, s)" by (cases "cached svc ck key L")
  with assms(3) have s: "s = svc1"
    by (cases r) (auto simp: returning_def)
  note m = cached_miss [OF assms(1,2) c [unfolded s]]
  show "executor (session svc1) = executor (session svc) @ [w]" by (rule m(1))
  show "provider (session svc1) = provider (session svc)" by (rule m(2))
  show "db_arg_resolver svc1 = db_arg_resolver svc" by (rule m(3))
  show "ck' \<noteq> ck \<Longrightarrow> object_cache svc1 ck' = object_cache svc ck'" by (rule m(4))
  show "ck' \<noteq> ck \<or> key' \<noteq> key \<Longrightarrow> cache_get (object_cache svc1) ck' key' = cache_get (object_cache svc) ck' key'"
    by (rule m(5))
  show "res = Inr found \<Longrightarrow> \<exists>data. cache_get (object_cache svc1) ck key = Some data \<and> f data = Inr found"
    using m(6) c assms(3) by (cases r) (auto simp: returning_def)
qed

lemma resolve_db_arg_cong:
  "db_arg_resolver svc' = db_arg_resolver svc \<Longrightarrow> resolve_db_arg svc' d = resolve_db_arg svc d"
  by (simp add: resolve_db_arg_def)

lemma procedures_available:
  "memoized svc ''procedures'' =
     (supports_stored_procedures (capabilities (provider (session svc)))
      \<and> get_procedures (schema_inspector (provider (session svc))) \<noteq> None)"
  by (simp add: memoized_def capability_flag_def implements_extension_def)

lemma memoized_cases:
  assumes "memoized svc kind"
  shows "kind = ''tables'' \<or> kind = ''views''
     \<or> (kind = ''procedures''
         \<and> supports_stored_procedures (capabilities (provider (session svc)))
         \<and> (\<exists>fn. get_procedures (schema_inspector (provider (session svc))) = Some fn))"
proof (cases "kind = ''tables'' \<or> kind = ''views''")
  case True
  then show ?thesis by blast
next
  case False
  then have nt: "kind \<noteq> ''tables''" and nv: "kind \<noteq> ''views''" by blast+
  have p: "kind = ''procedures''"
  proof (rule ccontr)
    assume "kind \<noteq> ''procedures''"
    with nt nv have "\<not> memoized svc kind" unfolding memoized_def by simp
    with assms show False by blast
  qed
  with assms have "memoized svc ''procedures''" by simp
  with p show ?thesis unfolding procedures_available by blast
qed

lemma memoized_shape:
  assumes "memoized svc kind"
  obtains L f where
    "\<And>db. loads (L db) (Work (loader_op kind) db)"
    and "\<And>svc' d. provider (session svc') = provider (session svc) \<Longrightarrow>
           db_arg_resolver svc' = db_arg_resolver svc \<Longrightarrow>
           list_folder_items svc' kind d
             = returning (cached svc' (cache_key_of d) kind (L (resolve_db_arg svc d))) f"
proof -
  consider "kind = ''tables''" | "kind = ''views''"
    | fn where "kind = ''procedures''"
        "supports_stored_procedures (capabilities (provider (session svc)))"
        "get_procedures (schema_inspector (provider (session svc))) = Some fn"
    using memoized_cases [OF assms] by blast
  then show thesis
  proof cases
    case 1
    show thesis
    proof (rule that [of "\<lambda>db s. load Rows (run s GetTables
              (get_tables (schema_inspector (provider (session svc)))) db)" "pair_items ''table''"])
      show "\<And>db. loads (\<lambda>s. load Rows (run s GetTables
              (get_tables (schema_inspector (provider (session svc)))) db)) (Work (loader_op kind) db)"
        using loads_run [of Rows GetTables] by (simp add: 1 loader_op_def)
    next
      fix svc' :: "'a explorer_schema_service" and d
      assume p: "provider (session svc') = provider (session svc)"
        and q: "db_arg_resolver svc' = db_arg_resolver svc"
      have r: "resolve_db_arg svc' d = resolve_db_arg svc d"
        using q by (rule resolve_db_arg_cong)
      show "list_folder_items svc' kind d
             = returning (cached svc' (cache_key_of d) kind
                 (\<lambda>s. load Rows (run s GetTables
                     (get_tables (schema_inspector (provider (session svc)))) (resolve_db_arg svc d))))
                 (pair_items ''table'')"
        by (simp add: 1 list_folder_items_def Let_def p r)
    qed
  next
    case 2
    show thesis
    proof (rule that [of "\<lambda>db s. load Rows (run s GetViews
              (get_views (schema_inspector (provider (session svc)))) db)" "pair_items ''view''"])
      show "\<And>db. loads (\<lambda>s. load Rows (run s GetViews
              (get_views (schema_inspector (provider (session svc)))) db)) (Work (loader_op kind) db)"
        using loads_run [of Rows GetViews] by (simp add: 2 loader_op_def)
    next
      fix svc' :: "'a explorer_schema_service" and d
      assume p: "provider (session svc') = provider (session svc)"
        and q: "db_arg_resolver svc' = db_arg_resolver svc"
      have r: "resolve_db_arg svc' d = resolve_db_arg svc d"
        using q by (rule resolve_db_arg_cong)
      show "list_folder_items svc' kind d
             = returning (cached svc' (cache_key_of d) kind
                 (\<lambda>s. load Rows (run s GetViews
                     (get_views (schema_inspector (provider (session svc)))) (resolve_db_arg svc d))))
                 (pair_items ''view'')"
        by (simp add: 2 list_folder_items_def Let_def p r)
    qed
  next
    case 3
    show thesis
    proof (rule that [of "\<lambda>db s. load Names (run s GetProcedures fn db)" procedure_items])
      show "\<And>db. loads (\<lambda>s. load Names (run s GetProcedures fn db)) (Work (loader_op kind) db)"
        using loads_run [of Names GetProcedures] by (simp add: 3 loader_op_def)
    next
      fix svc' :: "'a explorer_schema_service" and d
      assume p: "provider (session svc') = provider (session svc)"
        and q: "db_arg_resolver svc' = db_arg_resolver svc"
      have r: "resolve_db_arg svc' d = resolve_db_arg svc d"
        using q by (rule resolve_db_arg_cong)
      show "list_folder_items svc' kind d
             = returning (cached svc' (cache_key_of d) kind
                 (\<lambda>s. load Names (run s GetProcedures fn (resolve_db_arg svc d))))
                 procedure_items"
        by (simp add: 3 list_folder_items_def Let_def p r)
    qed
  qed
qed

lemma unknown_kind:
  assumes "folder_type \<noteq> ''tables''" "folder_type \<noteq> ''views''" "folder_type \<noteq> ''indexes''"
    "folder_type \<noteq> ''triggers''" "folder_type \<noteq> ''sequences''" "folder_type \<noteq> ''procedures''"
  shows "list_folder_items svc folder_type database = (Inr [], svc)"
  using assms by (simp add: list_folder_items_def Let_def)

lemma indexes_unsupported:
  assumes "\<not> supports_indexes (capabilities (provider (session svc)))
           \<or> get_indexes (schema_inspector (provider (session svc))) = None"
  shows "list_folder_items svc ''indexes'' database = (Inr [], svc)"
  using assms
  by (cases "supports_indexes (capabilities (provider (session svc)))";
      cases "get_indexes (schema_inspector (provider (session svc)))")
     (simp_all add: list_folder_items_def Let_def)

lemma triggers_unsupported:
  assumes "\<not> supports_triggers (capabilities (provider (session svc)))
           \<or> get_triggers (schema_inspector (provider (session svc))) = None"
  shows "list_folder_items svc ''triggers'' database = (Inr [], svc)"
  using assms
  by (cases "supports_triggers (capabilities (provider (session svc)))";
      cases "get_triggers (schema_inspector (provider (session svc)))")
     (simp_all add: list_folder_items_def Let_def)

lemma sequences_unsupported:
  assumes "\<not> supports_sequences (capabilities (provider (session svc)))
           \<or> get_sequences (schema_inspector (provider (session svc))) = None"
  shows "list_folder_items svc ''sequences'' database = (Inr [], svc)"
  using assms
  by (cases "supports_sequences (capabilities (provider (session svc)))";
      cases "get_sequences (schema_inspector (provider (session svc)))")
     (simp_all add: list_folder_items_def Let_def)

lemma procedures_unsupported:
  assumes "\<not> supports_stored_procedures (capabilities (provider (session svc)))
           \<or> get_procedures (schema_inspector (provider (session svc))) = None"
  shows "list_folder_items svc ''procedures'' database = (Inr [], svc)"
  using assms
  by (cases "supports_stored_procedures (capabilities (provider (session svc)))";
      cases "get_procedures (schema_inspector (provider (session svc)))")
     (simp_all add: list_folder_items_def Let_def)

lemma indexes_supported:
  assumes "supports_indexes (capabilities (provider (session svc)))"
    and "get_indexes (schema_inspector (provider (session svc))) = Some fn"
  shows "list_folder_items svc ''indexes'' database
     = returning (run svc GetIndexes fn (resolve_db_arg svc database))
         (\<lambda>found. Inr (map (\<lambda>item. (''index'', index_name item, index_table_name item)) found))"
  using assms by (simp add: list_folder_items_def Let_def)

lemma triggers_supported:
  assumes "supports_triggers (capabilities (provider (session svc)))"
    and "get_triggers (schema_inspector (provider (session svc))) = Some fn"
  shows "list_folder_items svc ''triggers'' database
     = returning (run svc GetTriggers fn (resolve_db_arg svc database))
         (\<lambda>found. Inr (map (\<lambda>item. (''trigger'', trigger_name item, trigger_table_name item)) found))"
  using assms by (simp add: list_folder_items_def Let_def)

lemma sequences_supported:
  assumes "supports_sequences (capabilities (provider (session svc)))"
    and "get_sequences (schema_inspector (provider (session svc))) = Some fn"
  shows "list_folder_items svc ''sequences'' database
     = returning (run svc GetSequences fn (resolve_db_arg svc database))
         (\<lambda>found. Inr (map (\<lambda>item. (''sequence'', sequence_name item, [])) found))"
  using assms by (simp add: list_folder_items_def Let_def)

lemma returning_run_effect:
  assumes "returning (run svc opn fn db) g = (res, svc')"
  shows "object_cache svc' = object_cache svc
     \<and> executor (session svc') = executor (session svc) @ [Work opn db]"
  using assms by (auto simp: returning_def run_def split: prod.splits sum.splits)

lemma uncached_same: "uncached_effect svc database svc"
  by (simp add: uncached_effect_def)

lemma uncached_run:
  "returning (run svc opn fn (resolve_db_arg svc database)) g = (res, svc')
     \<Longrightarrow> uncached_effect svc database svc'"
  unfolding uncached_effect_def using returning_run_effect by blast

lemma not_memoized_effect:
  assumes "\<not> memoized svc folder_type"
    and "list_folder_items svc folder_type database = (res, svc')"
  shows "uncached_effect svc database svc'"
proof -
  have nt: "folder_type \<noteq> ''tables''" and nv: "folder_type \<noteq> ''views''"
    using assms(1) by (auto simp: memoized_def)
  consider (i) "folder_type = ''indexes''" | (t) "folder_type = ''triggers''"
    | (s) "folder_type = ''sequences''" | (p) "folder_type = ''procedures''"
    | (u) "folder_type \<noteq> ''indexes''" "folder_type \<noteq> ''triggers''"
          "folder_type \<noteq> ''sequences''" "folder_type \<noteq> ''procedures''"
    by blast
  then show ?thesis
  proof cases
    case i
    show ?thesis
    proof (cases "supports_indexes (capabilities (provider (session svc)))
                  \<and> get_indexes (schema_inspector (provider (session svc))) \<noteq> None")
      case True
      then obtain fn where "supports_indexes (capabilities (provider (session svc)))"
        "get_indexes (schema_inspector (provider (session svc))) = Some fn" by blast
      from indexes_supported [OF this, of database] assms(2) i
      have "\<exists>g. returning (run svc GetIndexes fn (resolve_db_arg svc database)) g = (res, svc')"
        by (intro exI) simp
      then show ?thesis using uncached_run by blast
    next
      case False
      then have "list_folder_items svc ''indexes'' database = (Inr [], svc)"
        by (intro indexes_unsupported) blast
      with assms(2) i show ?thesis by (simp add: uncached_same)
    qed
  next
    case t
    show ?thesis
    proof (cases "supports_triggers (capabilities (provider (session svc)))
                  \<and> get_triggers (schema_inspector (provider (session svc))) \<noteq> None")
      case True
      then obtain fn where "supports_triggers (capabilities (provider (session svc)))"
        "get_triggers (schema_inspector (provider (session svc))) = Some fn" by blast
      from triggers_supported [OF this, of database] assms(2) t
      have "\<exists>g. returning (run svc GetTriggers fn (resolve_db_arg svc database)) g = (res, svc')"
        by (intro exI) simp
      then show ?thesis using uncached_run by blast
    next
      case False
      then have "list_folder_items svc ''triggers'' database = (Inr [], svc)"
        by (intro triggers_unsupported) blast
      with assms(2) t show ?thesis by (simp add: uncached_same)
    qed
  next
    case s
    show ?thesis
    proof (cases "supports_sequences (capabilities (provider (session svc)))
                  \<and> get_sequences (schema_inspector (provider (session svc))) \<noteq> None")
      case True
      then obtain fn where "supports_sequences (capabilities (provider (session svc)))"
        "get_sequences (schema_inspector (provider (session svc))) = Some fn" by blast
      from sequences_supported [OF this, of database] assms(2) s
      have "\<exists>g. returning (run svc GetSequences fn (resolve_db_arg svc database)) g = (res, svc')"
        by (intro exI) simp
      then show ?thesis using uncached_run by blast
    next
      case False
      then have "list_folder_items svc ''sequences'' database = (Inr [], svc)"
        by (intro sequences_unsupported) blast
      with assms(2) s show ?thesis by (simp add: uncached_same)
    qed
  next
    case p
    with assms(1) have "\<not> memoized svc ''procedures''" by simp
    then have "list_folder_items svc ''procedures'' database = (Inr [], svc)"
      unfolding procedures_available by (intro procedures_unsupported) blast
    with assms(2) p show ?thesis by (simp add: uncached_same)
  next
    case u
    from unknown_kind [OF nt nv u, of svc database] assms(2) show ?thesis
      by (simp add: uncached_same)
  qed
qed

lemma memo_effect:
  assumes "loads L (Work opn db)" and "returning (cached svc ck key L) f = (res, svc')"
  shows "(\<forall>k. k \<noteq> ck \<longrightarrow> object_cache svc' k = object_cache svc k)
     \<and> (executor (session svc') = executor (session svc)
        \<or> executor (session svc') = executor (session svc) @ [Work opn db])
     \<and> (\<forall>found. res = Inr found \<longrightarrow> cache_get (object_cache svc') ck key \<noteq> None)"
proof (cases "cache_get (object_cache svc) ck key")
  case None
  note m = memo_any [OF assms(1) None assms(2)]
  show ?thesis
  proof (intro conjI allI impI)
    fix k assume "k \<noteq> ck"
    then show "object_cache svc' k = object_cache svc k" by (rule m(4))
  next
    show "executor (session svc') = executor (session svc)
        \<or> executor (session svc') = executor (session svc) @ [Work opn db]"
      using m(1) by blast
  next
    fix found assume "res = Inr found"
    from m(6) [OF this] show "cache_get (object_cache svc') ck key \<noteq> None" by auto
  qed
next
  case (Some data)
  from memo_hit [OF Some, of L f] assms(2) have "svc' = svc" by simp
  with Some show ?thesis by simp
qed

text \<open>
  Claim C6. For each capability-gated folder kind (indexes, triggers, sequences,
  procedures) and every database selector: if the session's capability flag for the kind
  is false, or the inspector does not implement the kind's extension interface,
  \<^verbatim>\<open>list_folder_items\<close> returns the empty list and leaves the service as it was: the
  adapter is not invoked, nothing is handed to the executor, the cache is not touched.
\<close>

theorem unsupported_kind_empty:
  assumes "folder_type \<in> {''indexes'', ''triggers'', ''sequences'', ''procedures''}"
    and "\<not> capability_flag (capabilities (provider (session svc))) folder_type
         \<or> \<not> implements_extension (schema_inspector (provider (session svc))) folder_type"
  shows "list_folder_items svc folder_type database = (Inr [], svc)"
proof -
  consider "folder_type = ''indexes''" | "folder_type = ''triggers''"
    | "folder_type = ''sequences''" | "folder_type = ''procedures''"
    using assms(1) by blast
  then show ?thesis
  proof cases
    case 1
    with assms(2) show ?thesis
      by (simp add: capability_flag_def implements_extension_def indexes_unsupported)
  next
    case 2
    with assms(2) show ?thesis
      by (simp add: capability_flag_def implements_extension_def triggers_unsupported)
  next
    case 3
    with assms(2) show ?thesis
      by (simp add: capability_flag_def implements_extension_def sequences_unsupported)
  next
    case 4
    with assms(2) show ?thesis
      by (simp add: capability_flag_def implements_extension_def procedures_unsupported)
  qed
qed

theorem unsupported_kind_empty_witness:
  "\<not> capability_flag (capabilities (provider (session example_service))) ''indexes''
   \<and> implements_extension (schema_inspector (provider (session example_service))) ''indexes''
   \<and> list_folder_items example_service ''indexes'' (Some ''db1'') = (Inr [], example_service)"
  using unsupported_kind_empty [of "''indexes''" example_service "Some ''db1''"]
  by (simp add: capability_flag_def implements_extension_def schema_example_defs)

text \<open>
  Claim C7, as amended. The cache partition of a call is \<^verbatim>\<open>database or "__default__"\<close>,
  so two selectors share a partition when both are empty (\<^verbatim>\<open>None\<close>, the empty string) or
  one of them is the sentinel itself. For a kind that goes through the cache (tables, views,
  and procedures where the engine declares and implements them), starting from a cache with
  no entry of the kind under the keys of \<open>d\<close> and \<open>d'\<close>: a first call for \<open>d\<close> that returns
  hands the executor exactly one unit of work, the kind's inspector operation with the
  resolved database argument; a second call for \<open>d\<close> returns the same items and changes
  nothing, so the adapter is not invoked again. A following call for a \<open>d'\<close> whose cache key
  differs from that of \<open>d\<close> invokes the adapter once more, leaves the partition of \<open>d\<close>
  as it was (a call for \<open>d\<close> still returns the first items without touching the adapter)
  and, when it returns, is itself served from the cache afterwards.
\<close>

theorem list_folder_items_memoized:
  assumes "memoized svc kind"
    and "cache_get (object_cache svc) (cache_key_of d) kind = None"
    and "list_folder_items svc kind d = (Inr items1, svc1)"
    and "cache_key_of d' \<noteq> cache_key_of d"
    and "cache_get (object_cache svc) (cache_key_of d') kind = None"
    and "list_folder_items svc1 kind d' = (res3, svc3)"
  shows "executor (session svc1)
           = executor (session svc) @ [Work (loader_op kind) (resolve_db_arg svc d)]
     \<and> list_folder_items svc1 kind d = (Inr items1, svc1)
     \<and> executor (session svc3)
           = executor (session svc1) @ [Work (loader_op kind) (resolve_db_arg svc d')]
     \<and> object_cache svc3 (cache_key_of d) = object_cache svc1 (cache_key_of d)
     \<and> list_folder_items svc3 kind d = (Inr items1, svc3)
     \<and> (case res3 of
           Inl e \<Rightarrow> True
         | Inr items3 \<Rightarrow> list_folder_items svc3 kind d' = (Inr items3, svc3))"
proof -
  obtain L f where
    L: "\<And>db. loads (L db) (Work (loader_op kind) db)"
    and shape: "\<And>svc' d. provider (session svc') = provider (session svc) \<Longrightarrow>
           db_arg_resolver svc' = db_arg_resolver svc \<Longrightarrow>
           list_folder_items svc' kind d
             = returning (cached svc' (cache_key_of d) kind (L (resolve_db_arg svc d))) f"
    by (rule memoized_shape [OF assms(1)]) blast
  have c1: "returning (cached svc (cache_key_of d) kind (L (resolve_db_arg svc d))) f
              = (Inr items1, svc1)"
    using shape [of svc d] assms(3) by simp
  note f1 = memo_first [OF L assms(2) c1]
  from f1(6) obtain data where
    hit1: "cache_get (object_cache svc1) (cache_key_of d) kind = Some data"
    and fd: "f data = Inr items1"
    by blast
  have e1: "executor (session svc1)
           = executor (session svc) @ [Work (loader_op kind) (resolve_db_arg svc d)]"
    by (rule f1(1))
  have second: "list_folder_items svc1 kind d = (Inr items1, svc1)"
    using shape [OF f1(2) f1(3), of d] memo_hit [OF hit1] fd by simp
  have fresh3: "cache_get (object_cache svc1) (cache_key_of d') kind = None"
    using f1(5) [of "cache_key_of d'" kind] assms(4,5) by simp
  have c3: "returning (cached svc1 (cache_key_of d') kind (L (resolve_db_arg svc d'))) f
              = (res3, svc3)"
    using shape [OF f1(2) f1(3), of d'] assms(6) by simp
  note f3 = memo_any [OF L fresh3 c3]
  have e3: "executor (session svc3)
           = executor (session svc1) @ [Work (loader_op kind) (resolve_db_arg svc d')]"
    by (rule f3(1))
  have p3: "provider (session svc3) = provider (session svc)"
    using f3(2) f1(2) by simp
  have r3: "db_arg_resolver svc3 = db_arg_resolver svc"
    using f3(3) f1(3) by simp
  have keep: "object_cache svc3 (cache_key_of d) = object_cache svc1 (cache_key_of d)"
    using f3(4) [of "cache_key_of d"] assms(4) by simp
  have hit3: "cache_get (object_cache svc3) (cache_key_of d) kind = Some data"
    using f3(5) [of "cache_key_of d" kind] assms(4) hit1 by simp
  have again: "list_folder_items svc3 kind d = (Inr items1, svc3)"
    using shape [OF p3 r3, of d] memo_hit [OF hit3] fd by simp
  have third: "case res3 of
           Inl e \<Rightarrow> True
         | Inr items3 \<Rightarrow> list_folder_items svc3 kind d' = (Inr items3, svc3)"
  proof (cases res3)
    case (Inl e)
    then show ?thesis by simp
  next
    case (Inr items3)
    from f3(6) [OF Inr] obtain data3 where
      h: "cache_get (object_cache svc3) (cache_key_of d') kind = Some data3"
      and fd3: "f data3 = Inr items3"
      by blast
    have "list_folder_items svc3 kind d' = (Inr items3, svc3)"
      using shape [OF p3 r3, of d'] memo_hit [OF h] fd3 by simp
    with Inr show ?thesis by simp
  qed
  from e1 second e3 keep again third show ?thesis by blast
qed

theorem list_folder_items_memoized_witness:
  "memoized example_service ''tables''
   \<and> cache_get (object_cache example_service) (cache_key_of (Some ''db1'')) ''tables'' = None
   \<and> cache_key_of (Some ''db2'') \<noteq> cache_key_of (Some ''db1'')
   \<and> fst (list_folder_items example_service ''tables'' (Some ''db1''))
        = Inr [(''table'', ''public'', ''users'')]
   \<and> fst (list_folder_items (snd (list_folder_items example_service ''tables'' (Some ''db1'')))
             ''tables'' (Some ''db1''))
        = Inr [(''table'', ''public'', ''users'')]
   \<and> executor (session (snd (list_folder_items example_service ''tables'' (Some ''db1''))))
        = [Work GetTables (Some ''db1'')]
   \<and> executor (session (snd (list_folder_items
             (snd (list_folder_items example_service ''tables'' (Some ''db1'')))
             ''tables'' (Some ''db2''))))
        = [Work GetTables (Some ''db1''), Work GetTables (Some ''db2'')]"
  using list_folder_items_memoized
    [of example_service "''tables''" "Some ''db1''" "[(''table'', ''public'', ''users'')]"
        "snd (list_folder_items example_service ''tables'' (Some ''db1''))"
        "Some ''db2''"
        "fst (list_folder_items (snd (list_folder_items example_service ''tables'' (Some ''db1'')))
             ''tables'' (Some ''db2''))"
        "snd (list_folder_items (snd (list_folder_items example_service ''tables'' (Some ''db1'')))
             ''tables'' (Some ''db2''))"]
  by (simp add: schema_defs schema_example_defs Let_def)

text \<open>
  The claim as stated fails for two different selectors with one cache key: after two
  calls for \<^verbatim>\<open>None\<close>, a call for the empty string is served from the cache. The adapter
  has been invoked once, and the call returns the one row of the first call, where the
  adapter would now return two.
\<close>

theorem list_folder_items_memoized_counterexample:
  "(None :: string option) \<noteq> Some ''''
   \<and> executor (session (snd (list_folder_items
        (snd (list_folder_items
           (snd (list_folder_items example_service ''tables'' None)) ''tables'' None))
        ''tables'' (Some ''''))))
      = [Work GetTables None]
   \<and> fst (list_folder_items
        (snd (list_folder_items
           (snd (list_folder_items example_service ''tables'' None)) ''tables'' None))
        ''tables'' (Some ''''))
      = Inr [(''table'', ''public'', ''users'')]"
  by (simp add: schema_defs schema_example_defs Let_def)

text \<open>
  Claim C8, as amended. The cache partition key of a call is derived from the database
  selector as the caller passed it, not from the resolved argument: the sentinel
  \<^verbatim>\<open>__default__\<close> when the selector is \<^verbatim>\<open>None\<close> or empty, the selector itself otherwise.
  Every call leaves all other partitions as they were; a listing of a cached kind that
  returns has an entry of that kind in the selector's partition. The resolved value (the
  selector passed through the resolver, the selector itself when none is injected) is what
  every unit of work handed to the executor carries to the adapter.
\<close>

theorem cache_key_from_selector:
  assumes "list_folder_items svc folder_type database = (res, svc')"
  shows "(\<forall>k. k \<noteq> cache_key_of database \<longrightarrow> object_cache svc' k = object_cache svc k)
     \<and> (executor (session svc') = executor (session svc)
        \<or> (\<exists>opn. executor (session svc')
                    = executor (session svc) @ [Work opn (resolve_db_arg svc database)]))
     \<and> (memoized svc folder_type \<longrightarrow>
          (\<forall>found. res = Inr found \<longrightarrow>
             cache_get (object_cache svc') (cache_key_of database) folder_type \<noteq> None))"
proof (cases "memoized svc folder_type")
  case False
  from not_memoized_effect [OF False assms] False show ?thesis
    unfolding uncached_effect_def by simp
next
  case True
  obtain L f where
    L: "\<And>db. loads (L db) (Work (loader_op folder_type) db)"
    and shape: "\<And>svc' d. provider (session svc') = provider (session svc) \<Longrightarrow>
           db_arg_resolver svc' = db_arg_resolver svc \<Longrightarrow>
           list_folder_items svc' folder_type d
             = returning (cached svc' (cache_key_of d) folder_type (L (resolve_db_arg svc d))) f"
    by (rule memoized_shape [OF True]) blast
  have "returning (cached svc (cache_key_of database) folder_type
          (L (resolve_db_arg svc database))) f = (res, svc')"
    using shape [of svc database] assms by simp
  from memo_effect [OF L this] True show ?thesis by blast
qed

theorem cache_key_from_selector_witness:
  "resolve_db_arg implicit_db_service (Some ''db1'') = None
   \<and> cache_key_of (Some ''db1'') = ''db1''
   \<and> memoized implicit_db_service ''tables''
   \<and> fst (list_folder_items implicit_db_service ''tables'' (Some ''db1''))
        = Inr [(''table'', ''public'', ''users'')]
   \<and> executor (session (snd (list_folder_items implicit_db_service ''tables'' (Some ''db1''))))
        = [Work GetTables None]
   \<and> cache_get (object_cache (snd (list_folder_items implicit_db_service ''tables'' (Some ''db1''))))
        ''db1'' ''tables'' = Some (Rows [(''public'', ''users'')])"
  using cache_key_from_selector
    [of implicit_db_service "''tables''" "Some ''db1''"
        "fst (list_folder_items implicit_db_service ''tables'' (Some ''db1''))"
        "snd (list_folder_items implicit_db_service ''tables'' (Some ''db1''))"]
  by (simp add: schema_defs schema_example_defs Let_def)

text \<open>
  The claim as stated fails where the resolver changes the selector: with a resolver that
  drops the explicit database, listing the tables of \<^verbatim>\<open>db1\<close> forwards \<^verbatim>\<open>None\<close> to the
  adapter, whose key would be the sentinel, and stores the rows under \<^verbatim>\<open>db1\<close>; the
  sentinel's partition has no entry.
\<close>

theorem cache_key_from_selector_counterexample:
  "resolve_db_arg implicit_db_service (Some ''db1'') = None
   \<and> cache_key_of (resolve_db_arg implicit_db_service (Some ''db1'')) = ''__default__''
   \<and> fst (list_folder_items implicit_db_service ''tables'' (Some ''db1''))
        = Inr [(''table'', ''public'', ''users'')]
   \<and> cache_get (object_cache (snd (list_folder_items implicit_db_service ''tables'' (Some ''db1''))))
        ''__default__'' ''tables'' = None
   \<and> cache_get (object_cache (snd (list_folder_items implicit_db_service ''tables'' (Some ''db1''))))
        ''db1'' ''tables'' = Some (Rows [(''public'', ''users'')])"
  by (simp add: schema_defs schema_example_defs Let_def)

text \<open>
  Claim C10. For a folder kind that is none of tables, views, indexes, triggers, sequences
  and procedures, and every database selector, \<^verbatim>\<open>list_folder_items\<close> returns the empty
  list and leaves the service as it was: no adapter call, no cache access, no error.
\<close>

theorem unknown_kind_empty:
  assumes "folder_type \<notin> {''tables'', ''views'', ''indexes'', ''triggers'', ''sequences'', ''procedures''}"
  shows "list_folder_items svc folder_type database = (Inr [], svc)"
  using assms by (simp add: list_folder_items_def Let_def)

theorem unknown_kind_empty_witness:
  "list_folder_items example_service ''functions'' (Some ''db1'') = (Inr [], example_service)"
  using unknown_kind_empty [of "''functions''" example_service "Some ''db1''"]
  by simp

end
